theory Spec2Isabelle
  imports Main
begin

section \<open>The armature: bones, constraint stacks, widget requests\<close>

text \<open>
  The rig of \<^verbatim>\<open>rigify/rigs/basic/super_copy.py\<close> works on one armature object
  through bone names. A bone carries its place in the hierarchy and its constraint stack;
  geometry, editing properties and constraint settings are opaque here and stand as
  numbers. The bone collection is an ordered table from names to bones.
\<close>

type_synonym bone_name = string

record constraint =
  con_name :: string
  con_type :: string
  con_target :: "bone_name option"
  con_settings :: nat

record bone =
  geometry :: nat
  bone_parent :: "bone_name option"
  use_connect :: bool
  bbone :: bool
  properties :: nat
  constraints :: "constraint list"

datatype widget_call =
    Registered_widget bone_name string
  | Bone_widget bone_name

record armature =
  armature_bones :: "(bone_name \<times> bone) list"
  widget_calls :: "widget_call list"

definition names :: "armature \<Rightarrow> bone_name list" where
  "names a = map fst (armature_bones a)"

definition get_bone :: "armature \<Rightarrow> bone_name \<Rightarrow> bone option" where
  "get_bone a n = map_of (armature_bones a) n"

text \<open>
  An update addressed to a name that is not in the collection leaves the collection as it
  is: no failure of a collaborator is defined at this level.
\<close>

definition upd_bone :: "armature \<Rightarrow> bone_name \<Rightarrow> (bone \<Rightarrow> bone) \<Rightarrow> armature" where
  "upd_bone a n f =
     a\<lparr>armature_bones := map (\<lambda>(k, x). if k = n then (k, f x) else (k, x)) (armature_bones a)\<rparr>"

definition add_bone :: "armature \<Rightarrow> bone_name \<Rightarrow> bone \<Rightarrow> armature" where
  "add_bone a n x = a\<lparr>armature_bones := armature_bones a @ [(n, x)]\<rparr>"

definition stack :: "armature \<Rightarrow> bone_name \<Rightarrow> constraint list" where
  "stack a n = (case get_bone a n of None \<Rightarrow> [] | Some x \<Rightarrow> constraints x)"

definition parent_of :: "armature \<Rightarrow> bone_name \<Rightarrow> bone_name option" where
  "parent_of a n = (case get_bone a n of None \<Rightarrow> None | Some x \<Rightarrow> bone_parent x)"

text \<open>Python's \<^verbatim>\<open>str.startswith\<close>: \<open>startswith s p\<close> is \<^verbatim>\<open>s.startswith(p)\<close>.\<close>

fun startswith :: "string \<Rightarrow> string \<Rightarrow> bool" where
  "startswith s [] = True"
| "startswith [] (p # ps) = False"
| "startswith (c # s) (p # ps) = (c = p \<and> startswith s ps)"

text \<open>
  Python's truth value of an optional string: \<^verbatim>\<open>None\<close> and the empty string are
  both false.
\<close>

definition truthy :: "string option \<Rightarrow> bool" where
  "truthy s = (case s of None \<Rightarrow> False | Some n \<Rightarrow> n \<noteq> [])"

text \<open>Python's \<^verbatim>\<open>x or d\<close> on an optional string.\<close>

definition or_else :: "string option \<Rightarrow> string \<Rightarrow> string" where
  "or_else s d = (case s of None \<Rightarrow> d | Some n \<Rightarrow> if n = [] then d else n)"

section \<open>The host's collaborators\<close>

text \<open>
  What the source imports and the specification leaves to the host is a parameter of the
  model: the two naming utilities, the policy that makes a requested bone name unique,
  the defaults of a new bone and of a new constraint, the relink rules for the parent
  and for constraint targets, and whether a moved constraint keeps its prefix.
\<close>

record host =
  strip_org :: "string \<Rightarrow> string"
  make_deformer_name :: "string \<Rightarrow> string"
  unique_name :: "bone_name list \<Rightarrow> string \<Rightarrow> bone_name"
  default_properties :: nat
  default_use_connect :: bool
  parent_rule :: "bone_name \<Rightarrow> bone_name option \<Rightarrow> bone_name option"
  retarget :: "constraint \<Rightarrow> bone_name option"
  strip_moved_prefix :: bool
  new_constraint_name :: "string \<Rightarrow> string"
  new_constraint_settings :: "string \<Rightarrow> nat"

text \<open>
  Modelled from the spec: \<^verbatim>\<open>copy_bone\<close> of the bone store, which is not in the
  sources at hand (\<open>copy_bone(source, new_name, parent_flag, bendy_flag) -> bone_name\<close>).
  The new bone is a geometric duplicate of the source under the name the host's uniqueness
  policy gives to the requested one; with the parent flag it inherits the source's parent
  and connection, with the bendy flag its bendy-bone segmentation is enabled. It starts with
  an empty constraint stack. The name is returned.
\<close>

definition copy_bone ::
  "host \<Rightarrow> armature \<Rightarrow> bone_name \<Rightarrow> string \<Rightarrow> bool \<Rightarrow> bool \<Rightarrow> bone_name \<times> armature" where
  "copy_bone h a source new_name parent_flag bendy_flag =
     (let n = unique_name h (names a) new_name
      in case get_bone a source of
           None \<Rightarrow> (n, a)
         | Some src \<Rightarrow>
             (n, add_bone a n
                   \<lparr>geometry = geometry src,
                    bone_parent = (if parent_flag then bone_parent src else None),
                    use_connect = (if parent_flag then use_connect src else False),
                    bbone = bendy_flag,
                    properties = default_properties h,
                    constraints = []\<rparr>))"

text \<open>
  Modelled from the spec: \<^verbatim>\<open>set_bone_parent\<close> of the bone store
  (\<open>set_bone_parent(child, parent, connect_flag)\<close>). The connection flag is the one
  passed, or the host's default when the caller passes none.
\<close>

definition set_bone_parent ::
  "host \<Rightarrow> armature \<Rightarrow> bone_name \<Rightarrow> bone_name option \<Rightarrow> bool option \<Rightarrow> armature" where
  "set_bone_parent h a child new_parent connect_flag =
     upd_bone a child
       (\<lambda>x. x\<lparr>bone_parent := new_parent,
              use_connect := (case connect_flag of None \<Rightarrow> default_use_connect h | Some u \<Rightarrow> u)\<rparr>)"

text \<open>
  Modelled from the spec: \<^verbatim>\<open>copy_bone_properties\<close> of the bone store
  (\<open>copy_bone_properties(src, dst)\<close>): the editing properties of the source, verbatim.
\<close>

definition copy_bone_properties :: "armature \<Rightarrow> bone_name \<Rightarrow> bone_name \<Rightarrow> armature" where
  "copy_bone_properties a src dst =
     (case get_bone a src of
        None \<Rightarrow> a
      | Some s \<Rightarrow> upd_bone a dst (\<lambda>x. x\<lparr>properties := properties s\<rparr>))"

text \<open>
  Modelled from the spec: \<^verbatim>\<open>relink_bone_parent\<close> of the relink mixin
  (\<open>relink_bone_parent(bone) -> optional<bone_name>\<close>). The relink rules map the bone's
  original parent to the new one, which becomes the bone's parent; on an empty or absent
  result the bone is left without a parent. The result of the rules is returned.
\<close>

definition relink_bone_parent ::
  "host \<Rightarrow> armature \<Rightarrow> bone_name \<Rightarrow> bone_name option \<times> armature" where
  "relink_bone_parent h a b =
     (let new_parent = parent_rule h b (parent_of a b)
      in (new_parent,
          upd_bone a b (\<lambda>x. x\<lparr>bone_parent := (if truthy new_parent then new_parent else None)\<rparr>)))"

text \<open>
  Modelled from the spec: \<^verbatim>\<open>relink_bone_constraints\<close> of the relink mixin. Every
  constraint of the bone has its target rewritten by the relink rules; the list, its order
  and its owner stay as they are.
\<close>

definition relink_single_constraint :: "host \<Rightarrow> constraint \<Rightarrow> constraint" where
  "relink_single_constraint h c = c\<lparr>con_target := retarget h c\<rparr>"

definition relink_bone_constraints :: "host \<Rightarrow> armature \<Rightarrow> bone_name \<Rightarrow> armature" where
  "relink_bone_constraints h a b =
     upd_bone a b (\<lambda>x. x\<lparr>constraints := map (relink_single_constraint h) (constraints x)\<rparr>)"

text \<open>
  Modelled from the spec: \<^verbatim>\<open>relink_move_constraints\<close> of the relink mixin
  (\<open>relink_move_constraints(bone, dest, prefix)\<close>, moving by exact prefix match on the
  constraint name). The constraints of the source whose name starts with the prefix leave
  its stack and are appended to the destination's, in their order; the prefix is stripped
  or retained as the host does.
\<close>

definition moved_constraint :: "host \<Rightarrow> string \<Rightarrow> constraint \<Rightarrow> constraint" where
  "moved_constraint h pfx c =
     (if strip_moved_prefix h then c\<lparr>con_name := drop (length pfx) (con_name c)\<rparr> else c)"

definition relink_move_constraints ::
  "host \<Rightarrow> armature \<Rightarrow> bone_name \<Rightarrow> bone_name \<Rightarrow> string \<Rightarrow> armature" where
  "relink_move_constraints h a from_bone to_bone pfx =
     (let cs = stack a from_bone;
          moved = filter (\<lambda>c. startswith (con_name c) pfx) cs;
          kept = filter (\<lambda>c. \<not> startswith (con_name c) pfx) cs;
          a1 = upd_bone a from_bone (\<lambda>x. x\<lparr>constraints := kept\<rparr>)
      in upd_bone a1 to_bone
           (\<lambda>x. x\<lparr>constraints := constraints x @ map (moved_constraint h pfx) moved\<rparr>))"

text \<open>
  Modelled from the spec: \<^verbatim>\<open>make_constraint\<close> of the constraint store
  (\<open>add_constraint(bone, type, target, insert_index)\<close>). One new constraint of the given
  type and target enters the owner's stack at the given position, at the end when no
  position is given; its name and settings are the host's for the type.
\<close>

definition insert_at :: "nat \<Rightarrow> 'a \<Rightarrow> 'a list \<Rightarrow> 'a list" where
  "insert_at i x xs = take i xs @ x # drop i xs"

definition new_constraint :: "host \<Rightarrow> string \<Rightarrow> bone_name \<Rightarrow> constraint" where
  "new_constraint h ty tgt =
     \<lparr>con_name = new_constraint_name h ty, con_type = ty,
      con_target = Some tgt, con_settings = new_constraint_settings h ty\<rparr>"

definition make_constraint ::
  "host \<Rightarrow> armature \<Rightarrow> bone_name \<Rightarrow> string \<Rightarrow> bone_name \<Rightarrow> nat option \<Rightarrow> armature" where
  "make_constraint h a owner ty tgt insert_index =
     upd_bone a owner
       (\<lambda>x. x\<lparr>constraints :=
                (case insert_index of
                   None \<Rightarrow> constraints x @ [new_constraint h ty tgt]
                 | Some i \<Rightarrow> insert_at i (new_constraint h ty tgt) (constraints x))\<rparr>)"

text \<open>
  The two widget creators are requests to the widget catalog; the model records each
  request with its bone and, for a registered widget, its key.
\<close>

definition create_registered_widget :: "armature \<Rightarrow> bone_name \<Rightarrow> string \<Rightarrow> armature" where
  "create_registered_widget a b key = a\<lparr>widget_calls := widget_calls a @ [Registered_widget b key]\<rparr>"

definition create_bone_widget :: "armature \<Rightarrow> bone_name \<Rightarrow> armature" where
  "create_bone_widget a b = a\<lparr>widget_calls := widget_calls a @ [Bone_widget b]\<rparr>"

section \<open>The rig\<close>

record parameters =
  param_make_control :: bool
  param_make_widget :: bool
  param_super_copy_widget_type :: "string option"
  param_make_deform :: bool

text \<open>
  The instance state of \<^verbatim>\<open>Rig\<close>: the armature \<^verbatim>\<open>self.obj\<close>, the parameters, the
  bone set (\<^verbatim>\<open>bones.org\<close> always, \<^verbatim>\<open>bones.ctrl\<close> and \<^verbatim>\<open>bones.deform\<close> once
  assigned) and the fields that \<^verbatim>\<open>initialize\<close> sets.
\<close>

record rig =
  obj :: armature
  params :: parameters
  bones_org :: bone_name
  bones_ctrl :: "bone_name option"
  bones_deform :: "bone_name option"
  org_name :: string
  make_control :: bool
  make_widget :: bool
  make_deform :: bool

text \<open>Reading a role of the bone set that was never assigned raises.\<close>

datatype role = Ctrl | Deform

datatype error = Missing_role role

definition read_ctrl :: "rig \<Rightarrow> error + bone_name" where
  "read_ctrl st = (case bones_ctrl st of None \<Rightarrow> Inl (Missing_role Ctrl) | Some c \<Rightarrow> Inr c)"

definition read_deform :: "rig \<Rightarrow> error + bone_name" where
  "read_deform st = (case bones_deform st of None \<Rightarrow> Inl (Missing_role Deform) | Some d \<Rightarrow> Inr d)"

definition find_org_bones :: "bone_name \<Rightarrow> bone_name" where
  "find_org_bones pose_bone = pose_bone"

text \<open>
  A fresh instance on a pose bone: only \<^verbatim>\<open>bones.org\<close> is assigned. The fields of
  \<^verbatim>\<open>initialize\<close> do not exist yet in the source; here they hold placeholders that
  \<open>initialize\<close> overwrites.
\<close>

definition instantiate :: "armature \<Rightarrow> parameters \<Rightarrow> bone_name \<Rightarrow> rig" where
  "instantiate a p pose_bone =
     \<lparr>obj = a, params = p, bones_org = find_org_bones pose_bone,
      bones_ctrl = None, bones_deform = None, org_name = [],
      make_control = False, make_widget = False, make_deform = False\<rparr>"

definition initialize :: "host \<Rightarrow> rig \<Rightarrow> rig" where
  "initialize h st =
     st\<lparr>org_name := strip_org h (bones_org st),
        make_control := param_make_control (params st),
        make_widget := param_make_widget (params st),
        make_deform := param_make_deform (params st)\<rparr>"

definition generate_bones :: "host \<Rightarrow> rig \<Rightarrow> error + rig" where
  "generate_bones h st =
     (let st1 =
            (if make_control st then
               (case copy_bone h (obj st) (bones_org st) (org_name st) True False of
                  (n, a) \<Rightarrow> st\<lparr>obj := a, bones_ctrl := Some n\<rparr>)
             else st);
          st2 =
            (if make_deform st1 then
               (case copy_bone h (obj st1) (bones_org st1)
                       (make_deformer_name h (org_name st1)) False True of
                  (n, a) \<Rightarrow> st1\<lparr>obj := a, bones_deform := Some n\<rparr>)
             else st1)
      in Inr st2)"

definition parent_bones :: "host \<Rightarrow> rig \<Rightarrow> error + rig" where
  "parent_bones h st =
     (case (if make_deform st then
              (case read_deform st of
                 Inl e \<Rightarrow> Inl e
               | Inr d \<Rightarrow>
                   Inr (st\<lparr>obj := set_bone_parent h (obj st) d (Some (bones_org st)) (Some False)\<rparr>))
            else Inr st) of
        Inl e \<Rightarrow> Inl e
      | Inr st1 \<Rightarrow>
          (case relink_bone_parent h (obj st1) (bones_org st1) of
             (new_parent, a) \<Rightarrow>
               (let st2 = st1\<lparr>obj := a\<rparr>
                in if make_control st2 \<and> truthy new_parent then
                     (case read_ctrl st2 of
                        Inl e \<Rightarrow> Inl e
                      | Inr c \<Rightarrow> Inr (st2\<lparr>obj := set_bone_parent h (obj st2) c new_parent None\<rparr>))
                   else Inr st2)))"

definition configure_bones :: "host \<Rightarrow> rig \<Rightarrow> error + rig" where
  "configure_bones h st =
     (if make_control st then
        (case read_ctrl st of
           Inl e \<Rightarrow> Inl e
         | Inr c \<Rightarrow> Inr (st\<lparr>obj := copy_bone_properties (obj st) (bones_org st) c\<rparr>))
      else Inr st)"

definition rig_bones :: "host \<Rightarrow> rig \<Rightarrow> error + rig" where
  "rig_bones h st =
     (let st0 = st\<lparr>obj := relink_bone_constraints h (obj st) (bones_org st)\<rparr>
      in case (if make_control st0 then
                 (case read_ctrl st0 of
                    Inl e \<Rightarrow> Inl e
                  | Inr c \<Rightarrow>
                      (let a1 = relink_move_constraints h (obj st0) (bones_org st0) c ''CTRL:'';
                           a2 = make_constraint h a1 (bones_org st0) ''COPY_TRANSFORMS'' c (Some 0)
                       in Inr (st0\<lparr>obj := a2\<rparr>)))
               else Inr st0) of
           Inl e \<Rightarrow> Inl e
         | Inr st1 \<Rightarrow>
             (if make_deform st1 then
                (case read_deform st1 of
                   Inl e \<Rightarrow> Inl e
                 | Inr d \<Rightarrow>
                     Inr (st1\<lparr>obj := relink_move_constraints h (obj st1) (bones_org st1) d ''DEF:''\<rparr>))
              else Inr st1))"

definition generate_widgets :: "host \<Rightarrow> rig \<Rightarrow> error + rig" where
  "generate_widgets h st =
     (if make_control st then
        (case read_ctrl st of
           Inl e \<Rightarrow> Inl e
         | Inr c \<Rightarrow>
             (if make_widget st then
                Inr (st\<lparr>obj := create_registered_widget (obj st) c
                                 (or_else (param_super_copy_widget_type (params st)) ''circle'')\<rparr>)
              else Inr (st\<lparr>obj := create_bone_widget (obj st) c\<rparr>)))
      else Inr st)"

subsection \<open>The staged pipeline of one instance\<close>

definition then_stage :: "error + rig \<Rightarrow> (rig \<Rightarrow> error + rig) \<Rightarrow> error + rig" where
  "then_stage r f = (case r of Inl e \<Rightarrow> Inl e | Inr st \<Rightarrow> f st)"

definition run_generate :: "host \<Rightarrow> armature \<Rightarrow> parameters \<Rightarrow> bone_name \<Rightarrow> error + rig" where
  "run_generate h a p pose_bone = generate_bones h (initialize h (instantiate a p pose_bone))"

definition run_parent :: "host \<Rightarrow> armature \<Rightarrow> parameters \<Rightarrow> bone_name \<Rightarrow> error + rig" where
  "run_parent h a p pose_bone = then_stage (run_generate h a p pose_bone) (parent_bones h)"

definition run_configure :: "host \<Rightarrow> armature \<Rightarrow> parameters \<Rightarrow> bone_name \<Rightarrow> error + rig" where
  "run_configure h a p pose_bone = then_stage (run_parent h a p pose_bone) (configure_bones h)"

definition run_rig :: "host \<Rightarrow> armature \<Rightarrow> parameters \<Rightarrow> bone_name \<Rightarrow> error + rig" where
  "run_rig h a p pose_bone = then_stage (run_configure h a p pose_bone) (rig_bones h)"

definition run_widgets :: "host \<Rightarrow> armature \<Rightarrow> parameters \<Rightarrow> bone_name \<Rightarrow> error + rig" where
  "run_widgets h a p pose_bone = then_stage (run_rig h a p pose_bone) (generate_widgets h)"

text \<open>
  The defaults that \<^verbatim>\<open>add_parameters\<close> declares: every feature on, a circle widget.
\<close>

definition default_parameters :: parameters where
  "default_parameters =
     \<lparr>param_make_control = True, param_make_widget = True,
      param_super_copy_widget_type = Some ''circle'', param_make_deform = True\<rparr>"

section \<open>What the properties speak about\<close>

text \<open>
  The contract of the host that the properties rest on: a new bone gets a name no bone of
  the armature has; a requested name that is free is kept; and the name the host gives to a
  new copy-transforms constraint carries none of the two routing prefixes.
\<close>

definition fresh_names :: "host \<Rightarrow> bool" where
  "fresh_names h \<longleftrightarrow> (\<forall>taken n. unique_name h taken n \<notin> set taken)"

definition keeps_free_names :: "host \<Rightarrow> bool" where
  "keeps_free_names h \<longleftrightarrow> (\<forall>taken n. n \<notin> set taken \<longrightarrow> unique_name h taken n = n)"

definition plain_new_constraints :: "host \<Rightarrow> bool" where
  "plain_new_constraints h \<longleftrightarrow>
     \<not> startswith (new_constraint_name h ''COPY_TRANSFORMS'') ''CTRL:'' \<and>
     \<not> startswith (new_constraint_name h ''COPY_TRANSFORMS'') ''DEF:''"

text \<open>
  The first constraint of the org bone is a copy-transforms constraint whose target is the
  registered control bone.
\<close>

definition tracks_ctrl_at_front :: "rig \<Rightarrow> bool" where
  "tracks_ctrl_at_front st =
     (case bones_ctrl st of
        None \<Rightarrow> False
      | Some c \<Rightarrow>
          (case stack (obj st) (bones_org st) of
             [] \<Rightarrow> False
           | x # _ \<Rightarrow> con_type x = ''COPY_TRANSFORMS'' \<and> con_target x = Some c))"

text \<open>
  From the constraints \<open>cs\<close> the org bone starts with: what arrives on the destination of
  a move by prefix, and what the org bone is left with under the parameters \<open>p\<close>.
\<close>

definition moved_to :: "host \<Rightarrow> string \<Rightarrow> constraint list \<Rightarrow> constraint list" where
  "moved_to h pfx cs =
     map (moved_constraint h pfx)
       (filter (\<lambda>x. startswith (con_name x) pfx) (map (relink_single_constraint h) cs))"

definition left_on_org :: "host \<Rightarrow> parameters \<Rightarrow> constraint list \<Rightarrow> constraint list" where
  "left_on_org h p cs =
     filter (\<lambda>x. \<not> (param_make_control p \<and> startswith (con_name x) ''CTRL:'') \<and>
                 \<not> (param_make_deform p \<and> startswith (con_name x) ''DEF:''))
       (map (relink_single_constraint h) cs)"

text \<open>Every role whose flag is set has been assigned.\<close>

definition roles_registered :: "rig \<Rightarrow> bool" where
  "roles_registered st \<longleftrightarrow>
     (make_control st \<longrightarrow> bones_ctrl st \<noteq> None) \<and> (make_deform st \<longrightarrow> bones_deform st \<noteq> None)"

definition with_ctrl :: "bone_name option \<Rightarrow> error + rig \<Rightarrow> error + rig" where
  "with_ctrl x r = (case r of Inl e \<Rightarrow> Inl e | Inr s \<Rightarrow> Inr (s\<lparr>bones_ctrl := x\<rparr>))"

definition with_deform :: "bone_name option \<Rightarrow> error + rig \<Rightarrow> error + rig" where
  "with_deform x r = (case r of Inl e \<Rightarrow> Inl e | Inr s \<Rightarrow> Inr (s\<lparr>bones_deform := x\<rparr>))"

section \<open>A sample host and armature\<close>

text \<open>
  A host in the manner of Rigify: \<^verbatim>\<open>ORG-\<close> is stripped, a deformer is named
  \<^verbatim>\<open>DEF-\<close>, a free bone name is kept and a taken one is made longer than every name in
  use, the parent is relinked to itself, a target \<^verbatim>\<open>hand\<close> is relinked to
  \<^verbatim>\<open>ORG-hand\<close>, and a moved constraint keeps its name. A second host resolves no
  parent. The armature has a root and one org bone, child of the root, with four
  constraints.
\<close>

definition longest :: "string list \<Rightarrow> nat" where
  "longest ns = foldr (\<lambda>n m. max (length n) m) ns 0"

definition sample_unique_name :: "bone_name list \<Rightarrow> string \<Rightarrow> bone_name" where
  "sample_unique_name taken n =
     (if n \<in> set taken then n @ replicate (Suc (longest taken)) CHR ''_'' else n)"

definition sample_host :: host where
  "sample_host =
     \<lparr>strip_org = (\<lambda>n. if startswith n ''ORG-'' then drop 4 n else n),
      make_deformer_name = (\<lambda>n. ''DEF-'' @ n),
      unique_name = sample_unique_name,
      default_properties = 0,
      default_use_connect = False,
      parent_rule = (\<lambda>b old. old),
      retarget = (\<lambda>c. if con_target c = Some ''hand'' then Some ''ORG-hand'' else con_target c),
      strip_moved_prefix = False,
      new_constraint_name = (\<lambda>ty. ''Copy Transforms''),
      new_constraint_settings = (\<lambda>ty. 0)\<rparr>"

definition unparented_host :: host where
  "unparented_host = sample_host\<lparr>parent_rule := (\<lambda>b old. None)\<rparr>"

definition sample_constraints :: "constraint list" where
  "sample_constraints =
     [\<lparr>con_name = ''CTRL:Limit'', con_type = ''LIMIT_ROTATION'', con_target = None,
       con_settings = 1\<rparr>,
      \<lparr>con_name = ''Track'', con_type = ''DAMPED_TRACK'', con_target = Some ''hand'',
       con_settings = 2\<rparr>,
      \<lparr>con_name = ''DEF:Stretch'', con_type = ''STRETCH_TO'', con_target = Some ''hand'',
       con_settings = 3\<rparr>,
      \<lparr>con_name = ''CTRL:Copy'', con_type = ''COPY_ROTATION'', con_target = Some ''root'',
       con_settings = 4\<rparr>]"

definition sample_org :: bone where
  "sample_org =
     \<lparr>geometry = 7, bone_parent = Some ''root'', use_connect = True, bbone = False,
      properties = 5, constraints = sample_constraints\<rparr>"

definition sample_root :: bone where
  "sample_root =
     \<lparr>geometry = 1, bone_parent = None, use_connect = False, bbone = False,
      properties = 0, constraints = []\<rparr>"

definition sample_armature :: armature where
  "sample_armature =
     \<lparr>armature_bones = [(''root'', sample_root), (''ORG-Bone'', sample_org)], widget_calls = []\<rparr>"

section \<open>The bone collection\<close>

lemma names_upd_bone [simp]: "names (upd_bone a n f) = names a"
  by (simp add: names_def upd_bone_def comp_def case_prod_unfold)

lemma widget_calls_upd_bone [simp]: "widget_calls (upd_bone a n f) = widget_calls a"
  by (simp add: upd_bone_def)

lemma map_of_upd_entries:
  "map_of (map (\<lambda>(k, x). if k = n then (k, f x) else (k, x)) al) m =
     (if m = n then map_option f (map_of al n) else map_of al m)"
  by (induction al) auto

lemma get_bone_upd_bone [simp]:
  "get_bone (upd_bone a n f) m = (if m = n then map_option f (get_bone a n) else get_bone a m)"
  by (simp add: get_bone_def upd_bone_def map_of_upd_entries)

lemma names_add_bone [simp]: "names (add_bone a n x) = names a @ [n]"
  by (simp add: names_def add_bone_def)

lemma widget_calls_add_bone [simp]: "widget_calls (add_bone a n x) = widget_calls a"
  by (simp add: add_bone_def)

lemma get_bone_None_iff: "get_bone a n = None \<longleftrightarrow> n \<notin> set (names a)"
  by (simp add: get_bone_def names_def map_of_eq_None_iff)

lemma get_bone_Some_names: "get_bone a n = Some x \<Longrightarrow> n \<in> set (names a)"
  using get_bone_None_iff [of a n] by auto

lemma get_bone_add_bone:
  "n \<notin> set (names a) \<Longrightarrow>
   get_bone (add_bone a n x) m = (if m = n then Some x else get_bone a m)"
  using get_bone_None_iff [of a n]
  by (auto simp: get_bone_def add_bone_def map_add_def split: option.splits)

section \<open>Names and prefixes\<close>

lemma not_both_prefixes: "\<not> (startswith s ''CTRL:'' \<and> startswith s ''DEF:'')"
  by (cases s) auto

lemma def_prefix_not_ctrl:
  "(\<not> startswith s ''CTRL:'' \<and> startswith s ''DEF:'') = startswith s ''DEF:''"
  using not_both_prefixes [of s] by auto

lemma con_name_relink [simp]: "con_name (relink_single_constraint h x) = con_name x"
  by (simp add: relink_single_constraint_def)

lemma new_constraint_plain:
  assumes "plain_new_constraints h"
  shows "\<not> startswith (con_name (new_constraint h ''COPY_TRANSFORMS'' c)) ''CTRL:''"
    and "\<not> startswith (con_name (new_constraint h ''COPY_TRANSFORMS'' c)) ''DEF:''"
  using assms by (simp_all add: plain_new_constraints_def new_constraint_def)

lemma fresh_namesD: "fresh_names h \<Longrightarrow> unique_name h taken n \<notin> set taken"
  by (simp add: fresh_names_def)

text \<open>
  What freshness gives for the two names that generation asks for: each is new, differs
  from the org bone, and the second differs from the first.
\<close>

lemma fresh_facts:
  assumes fresh: "fresh_names h" and org: "get_bone a org = Some b"
  shows "unique_name h (names a) n \<notin> set (names a)"
    and "unique_name h (names a) n \<noteq> org"
    and "org \<noteq> unique_name h (names a) n"
    and "unique_name h (names a @ [c]) m \<notin> set (names a)"
    and "unique_name h (names a @ [c]) m \<noteq> org"
    and "org \<noteq> unique_name h (names a @ [c]) m"
    and "unique_name h (names a @ [c]) m \<noteq> c"
    and "c \<noteq> unique_name h (names a @ [c]) m"
proof -
  have orgin: "org \<in> set (names a)" using org by (rule get_bone_Some_names)
  have 1: "unique_name h (names a) n \<notin> set (names a)" using fresh by (rule fresh_namesD)
  have 2: "unique_name h (names a @ [c]) m \<notin> set (names a @ [c])"
    using fresh by (rule fresh_namesD)
  show "unique_name h (names a) n \<notin> set (names a)" by (rule 1)
  show "unique_name h (names a) n \<noteq> org" "org \<noteq> unique_name h (names a) n"
    using 1 orgin by auto
  show "unique_name h (names a @ [c]) m \<notin> set (names a)" using 2 by simp
  show "unique_name h (names a @ [c]) m \<noteq> org" "org \<noteq> unique_name h (names a @ [c]) m"
    using 2 orgin by auto
  show "unique_name h (names a @ [c]) m \<noteq> c" "c \<noteq> unique_name h (names a @ [c]) m"
    using 2 by auto
qed

section \<open>The stages, one at a time\<close>

lemmas stage_defs =
  run_generate_def run_parent_def run_configure_def run_rig_def run_widgets_def then_stage_def
  generate_bones_def parent_bones_def configure_bones_def rig_bones_def generate_widgets_def
  initialize_def instantiate_def find_org_bones_def read_ctrl_def read_deform_def

lemmas host_defs =
  copy_bone_def set_bone_parent_def copy_bone_properties_def relink_bone_parent_def
  relink_bone_constraints_def relink_move_constraints_def make_constraint_def
  create_registered_widget_def create_bone_widget_def

lemmas run_simps = stage_defs host_defs Let_def get_bone_add_bone parent_of_def

lemmas later_stage_defs =
  parent_bones_def configure_bones_def rig_bones_def generate_widgets_def
  read_ctrl_def read_deform_def Let_def

lemmas rig_stage_defs =
  rig_bones_def read_ctrl_def read_deform_def host_defs Let_def stack_def insert_at_def

text \<open>
  The rig stage on any state whose roles are assigned and distinct: the stack of the org
  bone afterwards, whatever it was before.
\<close>

lemma rig_bones_org_stack:
  assumes org: "get_bone (obj st) (bones_org st) = Some b"
    and ctrl: "make_control st \<Longrightarrow> bones_ctrl st = Some c \<and> c \<noteq> bones_org st"
    and deform: "make_deform st \<Longrightarrow> bones_deform st = Some d \<and> d \<noteq> bones_org st"
    and plain: "plain_new_constraints h"
  shows "\<exists>st'. rig_bones h st = Inr st' \<and> st' = st\<lparr>obj := obj st'\<rparr> \<and>
           names (obj st') = names (obj st) \<and> widget_calls (obj st') = widget_calls (obj st) \<and>
           stack (obj st') (bones_org st) =
             (if make_control st then [new_constraint h ''COPY_TRANSFORMS'' c] else []) @
             filter (\<lambda>x. \<not> (make_control st \<and> startswith (con_name x) ''CTRL:'') \<and>
                         \<not> (make_deform st \<and> startswith (con_name x) ''DEF:''))
               (map (relink_single_constraint h) (constraints b))"
proof -
  note nd = new_constraint_plain(2) [OF plain, of c]
  show ?thesis
  proof (cases "make_control st")
    case mc: True
    show ?thesis
    proof (cases "make_deform st")
      case True
      with mc ctrl deform have "bones_ctrl st = Some c" "bones_deform st = Some d"
        "c \<noteq> bones_org st" "bones_org st \<noteq> c" "d \<noteq> bones_org st" "bones_org st \<noteq> d"
        by auto
      with True mc org nd show ?thesis by (simp add: rig_stage_defs)
    next
      case False
      with mc ctrl have "bones_ctrl st = Some c" "c \<noteq> bones_org st" "bones_org st \<noteq> c"
        by auto
      with False mc org nd show ?thesis by (simp add: rig_stage_defs)
    qed
  next
    case mc: False
    show ?thesis
    proof (cases "make_deform st")
      case True
      with deform have "bones_deform st = Some d" "d \<noteq> bones_org st" "bones_org st \<noteq> d"
        by auto
      with True mc org show ?thesis by (simp add: rig_stage_defs)
    next
      case False
      with mc org show ?thesis by (simp add: rig_stage_defs)
    qed
  qed
qed

text \<open>
  The moved constraints are appended: the destination keeps what it had, in front.
\<close>

lemma rig_bones_ctrl_stack:
  assumes org: "get_bone (obj st) (bones_org st) = Some b"
    and mc: "make_control st"
    and ctrl: "bones_ctrl st = Some c" "c \<noteq> bones_org st" "get_bone (obj st) c = Some cb"
    and deform: "make_deform st \<Longrightarrow> bones_deform st = Some d \<and> d \<noteq> c"
  shows "\<exists>st'. rig_bones h st = Inr st' \<and>
           stack (obj st') c =
             constraints cb @ map (moved_constraint h ''CTRL:'')
               (filter (\<lambda>x. startswith (con_name x) ''CTRL:'')
                  (map (relink_single_constraint h) (constraints b)))"
proof (cases "make_deform st")
  case True
  with deform have "bones_deform st = Some d" "d \<noteq> c" "c \<noteq> d" by auto
  with True mc org ctrl show ?thesis by (simp add: rig_stage_defs)
next
  case False
  with mc org ctrl show ?thesis by (simp add: rig_stage_defs)
qed

lemma rig_bones_deform_stack:
  assumes org: "get_bone (obj st) (bones_org st) = Some b"
    and md: "make_deform st"
    and deform: "bones_deform st = Some d" "d \<noteq> bones_org st" "get_bone (obj st) d = Some db"
    and ctrl: "make_control st \<Longrightarrow> bones_ctrl st = Some c \<and> c \<noteq> bones_org st \<and> c \<noteq> d"
    and plain: "plain_new_constraints h"
  shows "\<exists>st'. rig_bones h st = Inr st' \<and>
           stack (obj st') d =
             constraints db @ map (moved_constraint h ''DEF:'')
               (filter (\<lambda>x. startswith (con_name x) ''DEF:'')
                  (map (relink_single_constraint h) (constraints b)))"
proof -
  note nd = new_constraint_plain(2) [OF plain, of c]
  show ?thesis
  proof (cases "make_control st")
    case True
    with ctrl have "bones_ctrl st = Some c" "c \<noteq> bones_org st" "bones_org st \<noteq> c"
      "c \<noteq> d" "d \<noteq> c" by auto
    with True md org deform nd show ?thesis
      by (simp add: rig_stage_defs def_prefix_not_ctrl)
  next
    case False
    with md org deform show ?thesis by (simp add: rig_stage_defs)
  qed
qed

text \<open>
  No stage raises on a state whose roles are registered, and each leaves them registered;
  only the armature changes after generation.
\<close>

lemma generate_bones_registers:
  "\<exists>s. generate_bones h st = Inr s \<and> roles_registered s \<and>
       make_control s = make_control st \<and> make_deform s = make_deform st \<and>
       make_widget s = make_widget st \<and> params s = params st \<and>
       widget_calls (obj s) = widget_calls (obj st)"
  by (auto simp: generate_bones_def roles_registered_def Let_def copy_bone_def
        split: prod.splits option.splits)

lemma later_stage_frame:
  assumes "roles_registered st"
    and "f = parent_bones h \<or> f = configure_bones h \<or> f = rig_bones h"
  shows "\<exists>s. f st = Inr s \<and> roles_registered s \<and>
       make_control s = make_control st \<and> make_deform s = make_deform st \<and>
       make_widget s = make_widget st \<and> params s = params st \<and>
       bones_ctrl s = bones_ctrl st \<and>
       widget_calls (obj s) = widget_calls (obj st)"
  using assms
  by (auto simp: later_stage_defs roles_registered_def host_defs split: prod.splits option.splits)

lemma generate_widgets_registered:
  assumes "roles_registered st"
  shows "\<exists>s. generate_widgets h st = Inr s \<and> roles_registered s"
  using assms
  by (auto simp: later_stage_defs roles_registered_def split: option.splits)

text \<open>Reading a role that was never assigned does raise.\<close>

lemma unregistered_ctrl_raises:
  assumes "make_control st" "bones_ctrl st = None"
  shows "configure_bones h st = Inl (Missing_role Ctrl)"
    and "generate_widgets h st = Inl (Missing_role Ctrl)"
    and "rig_bones h st = Inl (Missing_role Ctrl)"
  using assms by (simp_all add: later_stage_defs)

lemma unregistered_deform_raises:
  assumes "make_deform st" "bones_deform st = None"
  shows "parent_bones h st = Inl (Missing_role Deform)"
    and "\<not> make_control st \<Longrightarrow> rig_bones h st = Inl (Missing_role Deform)"
  using assms by (simp_all add: later_stage_defs)

section \<open>The pipeline up to a stage\<close>

text \<open>
  After the configure stage of a run on an armature that has the org bone: the roles are
  assigned as the flags say, to bones that exist, differ from the org bone and from each
  other, and have empty stacks; the org bone still has its constraints.
\<close>

lemma run_configure_view:
  assumes fresh: "fresh_names h" and org: "get_bone a org = Some b"
  shows "\<exists>st ob. run_configure h a p org = Inr st \<and>
           params st = p \<and> bones_org st = org \<and>
           make_control st = param_make_control p \<and>
           make_widget st = param_make_widget p \<and>
           make_deform st = param_make_deform p \<and>
           widget_calls (obj st) = widget_calls a \<and>
           get_bone (obj st) org = Some ob \<and> constraints ob = constraints b \<and>
           (if param_make_control p
            then \<exists>c cb. bones_ctrl st = Some c \<and> c \<noteq> org \<and>
                   get_bone (obj st) c = Some cb \<and> constraints cb = []
            else bones_ctrl st = None) \<and>
           (if param_make_deform p
            then \<exists>d db. bones_deform st = Some d \<and> d \<noteq> org \<and> bones_ctrl st \<noteq> Some d \<and>
                   get_bone (obj st) d = Some db \<and> constraints db = []
            else bones_deform st = None)"
proof (cases "param_make_control p")
  case mc: True
  show ?thesis
  proof (cases "param_make_deform p")
    case True
    with mc org fresh_facts [OF fresh org] show ?thesis
      by (simp add: run_simps split: prod.splits sum.splits)
  next
    case False
    with mc org fresh_facts [OF fresh org] show ?thesis
      by (simp add: run_simps split: prod.splits sum.splits)
  qed
next
  case mc: False
  show ?thesis
  proof (cases "param_make_deform p")
    case True
    with mc org fresh_facts [OF fresh org] show ?thesis
      by (simp add: run_simps split: prod.splits sum.splits)
  next
    case False
    with mc org fresh_facts [OF fresh org] show ?thesis
      by (simp add: run_simps split: prod.splits sum.splits)
  qed
qed

text \<open>After the rig stage of such a run: the three stacks.\<close>

lemma run_rig_view:
  assumes fresh: "fresh_names h" and plain: "plain_new_constraints h"
    and org: "get_bone a org = Some b"
  shows "\<exists>st. run_rig h a p org = Inr st \<and> bones_org st = org \<and> params st = p \<and>
           make_control st = param_make_control p \<and> make_widget st = param_make_widget p \<and>
           widget_calls (obj st) = widget_calls a \<and>
           (if param_make_control p
            then \<exists>c. bones_ctrl st = Some c \<and> c \<noteq> org \<and>
                   stack (obj st) org =
                     new_constraint h ''COPY_TRANSFORMS'' c # left_on_org h p (constraints b) \<and>
                   stack (obj st) c = moved_to h ''CTRL:'' (constraints b)
            else bones_ctrl st = None \<and> stack (obj st) org = left_on_org h p (constraints b)) \<and>
           (if param_make_deform p
            then \<exists>d. bones_deform st = Some d \<and> d \<noteq> org \<and>
                   stack (obj st) d = moved_to h ''DEF:'' (constraints b)
            else bones_deform st = None)"
proof -
  from run_configure_view [OF fresh org, of p] obtain s ob where
    run: "run_configure h a p org = Inr s" and
    fr: "params s = p" "bones_org s = org" "make_control s = param_make_control p"
      "make_widget s = param_make_widget p" "make_deform s = param_make_deform p"
      "widget_calls (obj s) = widget_calls a" and
    ob: "get_bone (obj s) (bones_org s) = Some ob" "constraints ob = constraints b" and
    ctrl: "if param_make_control p
            then \<exists>c cb. bones_ctrl s = Some c \<and> c \<noteq> org \<and>
                   get_bone (obj s) c = Some cb \<and> constraints cb = []
            else bones_ctrl s = None" and
    deform: "if param_make_deform p
            then \<exists>d db. bones_deform s = Some d \<and> d \<noteq> org \<and> bones_ctrl s \<noteq> Some d \<and>
                   get_bone (obj s) d = Some db \<and> constraints db = []
            else bones_deform s = None"
    by auto
  obtain c cb where c: "make_control s \<Longrightarrow>
      bones_ctrl s = Some c \<and> c \<noteq> bones_org s \<and> get_bone (obj s) c = Some cb \<and> constraints cb = []"
    using ctrl fr by (cases "param_make_control p") auto
  obtain d db where d: "make_deform s \<Longrightarrow>
      bones_deform s = Some d \<and> d \<noteq> bones_org s \<and> get_bone (obj s) d = Some db \<and>
      constraints db = [] \<and> (make_control s \<longrightarrow> c \<noteq> d)"
    using deform fr c by (cases "param_make_deform p") auto
  from rig_bones_org_stack [of s ob c d h, OF ob(1) _ _ plain] c d obtain st where
    st: "rig_bones h s = Inr st" and same: "st = s\<lparr>obj := obj st\<rparr>" and
    wc: "widget_calls (obj st) = widget_calls (obj s)" and
    os: "stack (obj st) (bones_org s) =
         (if make_control s then [new_constraint h ''COPY_TRANSFORMS'' c] else []) @
         filter (\<lambda>x. \<not> (make_control s \<and> startswith (con_name x) ''CTRL:'') \<and>
                     \<not> (make_deform s \<and> startswith (con_name x) ''DEF:''))
           (map (relink_single_constraint h) (constraints ob))"
    by blast
  have frame: "bones_org st = bones_org s" "params st = params s" "bones_ctrl st = bones_ctrl s"
    "bones_deform st = bones_deform s" "make_control st = make_control s"
    "make_widget st = make_widget s"
    by (subst same, simp)+
  have cs: "make_control s \<Longrightarrow> stack (obj st) c = moved_to h ''CTRL:'' (constraints b)"
    using rig_bones_ctrl_stack [of s ob c cb d h] ob c d st by (auto simp: moved_to_def)
  have ds: "make_deform s \<Longrightarrow> stack (obj st) d = moved_to h ''DEF:'' (constraints b)"
    using rig_bones_deform_stack [of s ob d db c h] ob c d st plain
    by (auto simp: moved_to_def)
  have run': "run_rig h a p org = Inr st" using run st by (simp add: run_rig_def then_stage_def)
  have ctrl_part: "if param_make_control p
            then \<exists>c. bones_ctrl st = Some c \<and> c \<noteq> org \<and>
                   stack (obj st) org =
                     new_constraint h ''COPY_TRANSFORMS'' c # left_on_org h p (constraints b) \<and>
                   stack (obj st) c = moved_to h ''CTRL:'' (constraints b)
            else bones_ctrl st = None \<and> stack (obj st) org = left_on_org h p (constraints b)"
    using c cs os ctrl fr ob(2) frame by (cases "param_make_control p") (auto simp: left_on_org_def)
  have deform_part: "if param_make_deform p
            then \<exists>d. bones_deform st = Some d \<and> d \<noteq> org \<and>
                   stack (obj st) d = moved_to h ''DEF:'' (constraints b)
            else bones_deform st = None"
    using d ds deform fr frame by (cases "param_make_deform p") auto
  show ?thesis using run' frame fr wc ctrl_part deform_part by auto
qed

text \<open>The same run on any armature at all: it does not raise, and requests no widget yet.\<close>

lemma run_rig_frame:
  "\<exists>s. run_rig h a p org = Inr s \<and> roles_registered s \<and>
       make_control s = param_make_control p \<and> make_widget s = param_make_widget p \<and>
       params s = p \<and> widget_calls (obj s) = widget_calls a"
proof -
  obtain s1 where s1: "generate_bones h (initialize h (instantiate a p org)) = Inr s1"
    "roles_registered s1" "make_control s1 = param_make_control p"
    "make_widget s1 = param_make_widget p" "params s1 = p" "widget_calls (obj s1) = widget_calls a"
    using generate_bones_registers [of h "initialize h (instantiate a p org)"]
    by (auto simp: initialize_def instantiate_def)
  obtain s2 where s2: "parent_bones h s1 = Inr s2"
    "roles_registered s2" "make_control s2 = param_make_control p"
    "make_widget s2 = param_make_widget p" "params s2 = p" "widget_calls (obj s2) = widget_calls a"
    using later_stage_frame [OF s1(2), of "parent_bones h" h] s1 by auto
  obtain s3 where s3: "configure_bones h s2 = Inr s3"
    "roles_registered s3" "make_control s3 = param_make_control p"
    "make_widget s3 = param_make_widget p" "params s3 = p" "widget_calls (obj s3) = widget_calls a"
    using later_stage_frame [OF s2(2), of "configure_bones h" h] s2 by auto
  obtain s4 where s4: "rig_bones h s3 = Inr s4"
    "roles_registered s4" "make_control s4 = param_make_control p"
    "make_widget s4 = param_make_widget p" "params s4 = p" "widget_calls (obj s4) = widget_calls a"
    using later_stage_frame [OF s3(2), of "rig_bones h" h] s3 by auto
  show ?thesis using s1(1) s2(1) s3(1) s4
    by (simp add: run_rig_def run_configure_def run_parent_def run_generate_def then_stage_def)
qed

lemma filter_unprefixed_kept:
  "filter (\<lambda>x. \<not> startswith (con_name x) ''CTRL:'' \<and> \<not> startswith (con_name x) ''DEF:'')
     (left_on_org h p cs) =
   map (relink_single_constraint h)
     (filter (\<lambda>x. \<not> startswith (con_name x) ''CTRL:'' \<and> \<not> startswith (con_name x) ''DEF:'') cs)"
  unfolding left_on_org_def by (induction cs) auto

section \<open>The sample host keeps the contract\<close>

lemma longest_ge: "n \<in> set ns \<Longrightarrow> length n \<le> longest ns"
  by (induction ns) (auto simp: longest_def)

lemma sample_unique_name_fresh: "sample_unique_name taken n \<notin> set taken"
proof (cases "n \<in> set taken")
  case True
  show ?thesis
  proof
    assume "sample_unique_name taken n \<in> set taken"
    then have "length (sample_unique_name taken n) \<le> longest taken" by (rule longest_ge)
    with True show False by (simp add: sample_unique_name_def)
  qed
next
  case False
  then show ?thesis by (simp add: sample_unique_name_def)
qed

lemma fresh_names_sample: "unique_name h = sample_unique_name \<Longrightarrow> fresh_names h"
  by (simp add: fresh_names_def sample_unique_name_fresh)

lemma keeps_free_names_sample: "unique_name h = sample_unique_name \<Longrightarrow> keeps_free_names h"
  by (simp add: keeps_free_names_def sample_unique_name_def)

lemma sample_host_contract:
  "fresh_names sample_host" "keeps_free_names sample_host" "plain_new_constraints sample_host"
  "fresh_names unparented_host"
  by (simp_all add: fresh_names_sample keeps_free_names_sample plain_new_constraints_def
        sample_host_def unparented_host_def)

lemma sample_org_bone: "get_bone sample_armature ''ORG-Bone'' = Some sample_org"
  by (simp add: get_bone_def sample_armature_def)

lemmas sample_defs =
  sample_host_def default_parameters_def sample_org_def sample_constraints_def
  relink_single_constraint_def moved_constraint_def new_constraint_def

section \<open>The bone-generation stage\<close>

text \<open>
  Claim C7. For every combination of \<open>make_control\<close> and \<open>make_deform\<close>, generation on an
  armature that has the org bone creates exactly the control (when \<open>make_control\<close>) and the
  deform bone (when \<open>make_deform\<close>), after the bones already there, which stay as they
  were, and registers them under their roles. The control is a duplicate of org under the
  name the host gives for the stripped org name (that very name when it is free), with org's
  parent and connection and with no bendy-bone segmentation; the deform bone is a duplicate
  of org under the name the host gives for the deformer name of the stripped org name,
  with bendy-bone segmentation. Both start without constraints.
\<close>

theorem generate_bones_creates:
  assumes fresh: "fresh_names h" and org: "get_bone a org = Some b"
  shows "\<exists>st c d.
           run_generate h a p org = Inr st \<and>
           c = unique_name h (names a) (strip_org h org) \<and>
           d = unique_name h (names a @ (if param_make_control p then [c] else []))
                 (make_deformer_name h (strip_org h org)) \<and>
           c \<notin> set (names a) \<and> d \<notin> set (names a) \<and> (param_make_control p \<longrightarrow> c \<noteq> d) \<and>
           names (obj st) =
             names a @ (if param_make_control p then [c] else []) @
                       (if param_make_deform p then [d] else []) \<and>
           bones_ctrl st = (if param_make_control p then Some c else None) \<and>
           bones_deform st = (if param_make_deform p then Some d else None) \<and>
           (param_make_control p \<longrightarrow>
              get_bone (obj st) c =
                Some \<lparr>geometry = geometry b, bone_parent = bone_parent b,
                      use_connect = use_connect b, bbone = False,
                      properties = default_properties h, constraints = []\<rparr>) \<and>
           (param_make_deform p \<longrightarrow>
              get_bone (obj st) d =
                Some \<lparr>geometry = geometry b, bone_parent = None,
                      use_connect = False, bbone = True,
                      properties = default_properties h, constraints = []\<rparr>) \<and>
           (\<forall>n \<in> set (names a). get_bone (obj st) n = get_bone a n) \<and>
           (keeps_free_names h \<and> strip_org h org \<notin> set (names a) \<longrightarrow> c = strip_org h org) \<and>
           (keeps_free_names h \<and>
              make_deformer_name h (strip_org h org) \<notin> set (names a) \<and>
              make_deformer_name h (strip_org h org) \<noteq> c \<longrightarrow>
              d = make_deformer_name h (strip_org h org))"
proof -
  have keep: "\<And>taken n. keeps_free_names h \<Longrightarrow> n \<notin> set taken \<Longrightarrow> unique_name h taken n = n"
    by (simp add: keeps_free_names_def)
  show ?thesis
  proof (cases "param_make_control p")
    case mc: True
    show ?thesis
    proof (cases "param_make_deform p")
      case True
      with mc org fresh_facts [OF fresh org] show ?thesis
        by (auto simp add: stage_defs host_defs Let_def get_bone_add_bone keep)
    next
      case False
      with mc org fresh_facts [OF fresh org] show ?thesis
        by (auto simp add: stage_defs host_defs Let_def get_bone_add_bone keep)
    qed
  next
    case mc: False
    show ?thesis
    proof (cases "param_make_deform p")
      case True
      with mc org fresh_facts [OF fresh org] show ?thesis
        by (auto simp add: stage_defs host_defs Let_def get_bone_add_bone keep)
    next
      case False
      with mc org fresh_facts [OF fresh org] show ?thesis
        by (auto simp add: stage_defs host_defs Let_def get_bone_add_bone keep)
    qed
  qed
qed

theorem generate_bones_creates_witness:
  "fresh_names sample_host \<and> keeps_free_names sample_host \<and>
   get_bone sample_armature ''ORG-Bone'' = Some sample_org \<and>
   param_make_control default_parameters \<and> param_make_deform default_parameters \<and>
   ''root'' \<in> set (names sample_armature) \<and>
   strip_org sample_host ''ORG-Bone'' \<notin> set (names sample_armature) \<and>
   (\<exists>st. run_generate sample_host sample_armature default_parameters ''ORG-Bone'' = Inr st \<and>
      names (obj st) = [''root'', ''ORG-Bone'', ''Bone'', ''DEF-Bone''] \<and>
      bones_ctrl st = Some ''Bone'' \<and> bones_deform st = Some ''DEF-Bone'' \<and>
      get_bone (obj st) ''root'' = Some sample_root \<and>
      get_bone (obj st) ''Bone'' =
        Some \<lparr>geometry = 7, bone_parent = Some ''root'', use_connect = True, bbone = False,
              properties = 0, constraints = []\<rparr> \<and>
      get_bone (obj st) ''DEF-Bone'' =
        Some \<lparr>geometry = 7, bone_parent = None, use_connect = False, bbone = True,
              properties = 0, constraints = []\<rparr>)"
proof -
  have nm: "names sample_armature = [''root'', ''ORG-Bone'']"
    by (simp add: names_def sample_armature_def)
  have root: "get_bone sample_armature ''root'' = Some sample_root"
    by (simp add: get_bone_def sample_armature_def)
  have un: "unique_name sample_host = sample_unique_name"
    "strip_org sample_host ''ORG-Bone'' = ''Bone''"
    "make_deformer_name sample_host ''Bone'' = ''DEF-Bone''"
    "default_properties sample_host = 0"
    by (simp_all add: sample_host_def)
  have flags: "param_make_control default_parameters" "param_make_deform default_parameters"
    by (simp_all add: default_parameters_def)
  from generate_bones_creates [OF sample_host_contract(1) sample_org_bone, of default_parameters]
  show ?thesis
    using sample_host_contract(1,2) sample_org_bone flags root
    by (auto simp: nm un sample_unique_name_def sample_org_def)
qed

section \<open>The parenting stage\<close>

text \<open>
  Claim C5. If \<open>make_control\<close> is true and the relink step for org's parent returns a
  non-empty bone name \<open>P\<close>, then after the parenting stage both the org bone and the control
  bone have parent \<open>P\<close>. (The relink rules see org's original parent: generation and the
  parenting of the deform bone leave org as it was.)
\<close>

theorem control_shares_relinked_parent:
  assumes fresh: "fresh_names h" and org: "get_bone a org = Some b"
    and mc: "param_make_control p"
    and relink: "fst (relink_bone_parent h a org) = Some P" and nonempty: "P \<noteq> []"
  shows "\<exists>st c. run_parent h a p org = Inr st \<and> bones_ctrl st = Some c \<and> c \<noteq> org \<and>
           parent_of (obj st) org = Some P \<and> parent_of (obj st) c = Some P"
proof -
  have rule: "parent_rule h org (bone_parent b) = Some P"
    using relink org by (simp add: relink_bone_parent_def parent_of_def Let_def)
  show ?thesis
  proof (cases "param_make_deform p")
    case True
    with mc org rule nonempty fresh_facts [OF fresh org] show ?thesis
      by (simp add: run_simps truthy_def)
  next
    case False
    with mc org rule nonempty fresh_facts [OF fresh org] show ?thesis
      by (simp add: run_simps truthy_def)
  qed
qed

theorem control_shares_relinked_parent_witness:
  "fresh_names sample_host \<and> get_bone sample_armature ''ORG-Bone'' = Some sample_org \<and>
   param_make_control default_parameters \<and>
   fst (relink_bone_parent sample_host sample_armature ''ORG-Bone'') = Some ''root'' \<and>
   ''root'' \<noteq> [] \<and>
   (\<exists>st c. run_parent sample_host sample_armature default_parameters ''ORG-Bone'' = Inr st \<and>
      bones_ctrl st = Some c \<and> c \<noteq> ''ORG-Bone'' \<and>
      parent_of (obj st) ''ORG-Bone'' = Some ''root'' \<and> parent_of (obj st) c = Some ''root'')"
proof -
  have mc: "param_make_control default_parameters" by (simp add: default_parameters_def)
  have rl: "fst (relink_bone_parent sample_host sample_armature ''ORG-Bone'') = Some ''root''"
    by (simp add: relink_bone_parent_def parent_of_def Let_def sample_org_bone sample_org_def
          sample_host_def)
  have ne: "''root'' \<noteq> []" by simp
  from control_shares_relinked_parent [OF sample_host_contract(1) sample_org_bone mc rl ne]
  show ?thesis using sample_host_contract(1) sample_org_bone mc rl by simp
qed

text \<open>
  Claim C6. If \<open>make_deform\<close> is true, then after the parenting stage the parent of the
  deform bone is the org bone, with connected parenting disabled, for every value of
  \<open>make_control\<close> and every result of the parent relink.
\<close>

theorem deform_child_of_org:
  assumes fresh: "fresh_names h" and org: "get_bone a org = Some b"
    and md: "param_make_deform p"
  shows "\<exists>st d db. run_parent h a p org = Inr st \<and> bones_deform st = Some d \<and>
           get_bone (obj st) d = Some db \<and> bone_parent db = Some org \<and> \<not> use_connect db"
proof (cases "param_make_control p")
  case True
  with md org fresh_facts [OF fresh org] show ?thesis
    by (simp add: run_simps)
next
  case False
  with md org fresh_facts [OF fresh org] show ?thesis
    by (simp add: run_simps)
qed

theorem deform_child_of_org_witness:
  "fresh_names sample_host \<and> get_bone sample_armature ''ORG-Bone'' = Some sample_org \<and>
   param_make_deform default_parameters \<and>
   (\<exists>st d db. run_parent sample_host sample_armature default_parameters ''ORG-Bone'' = Inr st \<and>
      bones_deform st = Some d \<and> get_bone (obj st) d = Some db \<and>
      bone_parent db = Some ''ORG-Bone'' \<and> \<not> use_connect db)"
proof -
  have md: "param_make_deform default_parameters" by (simp add: default_parameters_def)
  from deform_child_of_org [OF sample_host_contract(1) sample_org_bone md]
  show ?thesis using sample_host_contract(1) sample_org_bone md by simp
qed

text \<open>
  Claim C9. If \<open>make_control\<close> is true and the parent relink returns an empty or absent
  result, the parenting stage leaves the control bone as generation made it: the control
  keeps the parent it inherited from org when it was copied, while org itself is left
  without a parent.
\<close>

theorem control_keeps_inherited_parent:
  assumes fresh: "fresh_names h" and org: "get_bone a org = Some b"
    and mc: "param_make_control p"
    and relink: "\<not> truthy (fst (relink_bone_parent h a org))"
  shows "\<exists>s1 s2 c cb. run_generate h a p org = Inr s1 \<and> run_parent h a p org = Inr s2 \<and>
           bones_ctrl s1 = Some c \<and> bones_ctrl s2 = Some c \<and>
           get_bone (obj s1) c = Some cb \<and> get_bone (obj s2) c = Some cb \<and>
           bone_parent cb = bone_parent b \<and>
           parent_of (obj s2) org = None"
proof -
  have rule: "\<not> truthy (parent_rule h org (bone_parent b))"
    using relink org by (simp add: relink_bone_parent_def parent_of_def Let_def)
  show ?thesis
  proof (cases "param_make_deform p")
    case True
    with mc org rule fresh_facts [OF fresh org] show ?thesis
      by (simp add: run_simps)
  next
    case False
    with mc org rule fresh_facts [OF fresh org] show ?thesis
      by (simp add: run_simps)
  qed
qed

theorem control_keeps_inherited_parent_witness:
  "fresh_names unparented_host \<and> get_bone sample_armature ''ORG-Bone'' = Some sample_org \<and>
   param_make_control default_parameters \<and>
   \<not> truthy (fst (relink_bone_parent unparented_host sample_armature ''ORG-Bone'')) \<and>
   (\<exists>s2 c. run_parent unparented_host sample_armature default_parameters ''ORG-Bone'' = Inr s2 \<and>
      bones_ctrl s2 = Some c \<and> parent_of (obj s2) c = Some ''root'' \<and>
      parent_of (obj s2) ''ORG-Bone'' = None)"
proof -
  have mc: "param_make_control default_parameters" by (simp add: default_parameters_def)
  have rl: "\<not> truthy (fst (relink_bone_parent unparented_host sample_armature ''ORG-Bone''))"
    by (simp add: relink_bone_parent_def Let_def truthy_def unparented_host_def)
  from control_keeps_inherited_parent [OF sample_host_contract(4) sample_org_bone mc rl]
  show ?thesis using sample_host_contract(4) sample_org_bone mc rl
    by (auto simp: parent_of_def sample_org_def)
qed

section \<open>The rig stage: constraints\<close>

text \<open>
  Claim C1. For every initial constraint stack of the org bone, after the rig stage a
  copy-transforms constraint targeting the control bone stands at index 0 of org's stack if
  and only if \<open>make_control\<close> is true, and exactly one constraint is added: org's stack is
  that constraint, when there is a control, followed by those of its relinked constraints
  that no move took away.
\<close>

theorem copy_transforms_iff_control:
  assumes fresh: "fresh_names h" and plain: "plain_new_constraints h"
    and org: "get_bone a org = Some b"
  shows "\<exists>st. run_rig h a p org = Inr st \<and>
           (tracks_ctrl_at_front st \<longleftrightarrow> param_make_control p) \<and>
           (bones_ctrl st \<noteq> None \<longleftrightarrow> param_make_control p) \<and>
           stack (obj st) org =
             (case bones_ctrl st of
                None \<Rightarrow> []
              | Some c \<Rightarrow> [new_constraint h ''COPY_TRANSFORMS'' c]) @
             filter (\<lambda>x. \<not> (param_make_control p \<and> startswith (con_name x) ''CTRL:'') \<and>
                         \<not> (param_make_deform p \<and> startswith (con_name x) ''DEF:''))
               (map (relink_single_constraint h) (constraints b))"
proof -
  from run_rig_view [OF fresh plain org, of p] obtain st where
    run: "run_rig h a p org = Inr st" and o: "bones_org st = org" and
    ctrl: "if param_make_control p
            then \<exists>c. bones_ctrl st = Some c \<and> c \<noteq> org \<and>
                   stack (obj st) org =
                     new_constraint h ''COPY_TRANSFORMS'' c # left_on_org h p (constraints b) \<and>
                   stack (obj st) c = moved_to h ''CTRL:'' (constraints b)
            else bones_ctrl st = None \<and> stack (obj st) org = left_on_org h p (constraints b)"
    by blast
  show ?thesis
  proof (cases "param_make_control p")
    case True
    with ctrl o run show ?thesis
      by (auto simp: tracks_ctrl_at_front_def new_constraint_def left_on_org_def)
  next
    case False
    with ctrl o run show ?thesis
      by (auto simp: tracks_ctrl_at_front_def left_on_org_def)
  qed
qed

theorem copy_transforms_iff_control_witness:
  "fresh_names sample_host \<and> plain_new_constraints sample_host \<and>
   get_bone sample_armature ''ORG-Bone'' = Some sample_org \<and>
   param_make_control default_parameters \<and>
   (\<exists>st c. run_rig sample_host sample_armature default_parameters ''ORG-Bone'' = Inr st \<and>
      tracks_ctrl_at_front st \<and> bones_ctrl st = Some c \<and>
      stack (obj st) ''ORG-Bone'' =
        [\<lparr>con_name = ''Copy Transforms'', con_type = ''COPY_TRANSFORMS'', con_target = Some c,
          con_settings = 0\<rparr>,
         \<lparr>con_name = ''Track'', con_type = ''DAMPED_TRACK'', con_target = Some ''ORG-hand'',
          con_settings = 2\<rparr>]) \<and>
   \<not> param_make_control (default_parameters\<lparr>param_make_control := False\<rparr>) \<and>
   (\<exists>st. run_rig sample_host sample_armature
            (default_parameters\<lparr>param_make_control := False\<rparr>) ''ORG-Bone'' = Inr st \<and>
      \<not> tracks_ctrl_at_front st \<and> length (stack (obj st) ''ORG-Bone'') = 3)"
proof -
  note hyps = sample_host_contract(1,3) sample_org_bone
  from copy_transforms_iff_control [OF hyps, of default_parameters]
  have 1: "\<exists>st c. run_rig sample_host sample_armature default_parameters ''ORG-Bone'' = Inr st \<and>
      tracks_ctrl_at_front st \<and> bones_ctrl st = Some c \<and>
      stack (obj st) ''ORG-Bone'' =
        [\<lparr>con_name = ''Copy Transforms'', con_type = ''COPY_TRANSFORMS'', con_target = Some c,
          con_settings = 0\<rparr>,
         \<lparr>con_name = ''Track'', con_type = ''DAMPED_TRACK'', con_target = Some ''ORG-hand'',
          con_settings = 2\<rparr>]"
    by (auto simp: sample_defs)
  from copy_transforms_iff_control [OF hyps, of "default_parameters\<lparr>param_make_control := False\<rparr>"]
  have 2: "\<exists>st. run_rig sample_host sample_armature
            (default_parameters\<lparr>param_make_control := False\<rparr>) ''ORG-Bone'' = Inr st \<and>
      \<not> tracks_ctrl_at_front st \<and> length (stack (obj st) ''ORG-Bone'') = 3"
    by (auto simp: sample_defs)
  show ?thesis using hyps 1 2 by (simp add: default_parameters_def)
qed

text \<open>
  Claim C2. If \<open>make_control\<close> is true, then after the rig stage every constraint of org
  whose name starts with \<^verbatim>\<open>CTRL:\<close> is gone from org's stack and stands on the
  control's: the stack of the control, empty until then, is exactly those constraints,
  relinked, in the order they had on org.
\<close>

theorem ctrl_constraints_move_to_control:
  assumes fresh: "fresh_names h" and plain: "plain_new_constraints h"
    and org: "get_bone a org = Some b" and mc: "param_make_control p"
  shows "\<exists>st c. run_rig h a p org = Inr st \<and> bones_ctrl st = Some c \<and> c \<noteq> org \<and>
           stack (obj st) c =
             map (moved_constraint h ''CTRL:'')
               (filter (\<lambda>x. startswith (con_name x) ''CTRL:'')
                  (map (relink_single_constraint h) (constraints b))) \<and>
           (\<forall>x \<in> set (stack (obj st) org). \<not> startswith (con_name x) ''CTRL:'') \<and>
           (\<forall>x \<in> set (constraints b). startswith (con_name x) ''CTRL:'' \<longrightarrow>
              relink_single_constraint h x \<notin> set (stack (obj st) org) \<and>
              moved_constraint h ''CTRL:'' (relink_single_constraint h x) \<in> set (stack (obj st) c))"
proof -
  from run_rig_view [OF fresh plain org, of p] mc obtain st c where
    run: "run_rig h a p org = Inr st" and
    c: "bones_ctrl st = Some c" "c \<noteq> org" and
    os: "stack (obj st) org =
           new_constraint h ''COPY_TRANSFORMS'' c # left_on_org h p (constraints b)" and
    cs: "stack (obj st) c = moved_to h ''CTRL:'' (constraints b)"
    by auto
  have none: "\<forall>x \<in> set (stack (obj st) org). \<not> startswith (con_name x) ''CTRL:''"
    unfolding os using new_constraint_plain(1) [OF plain] mc by (auto simp: left_on_org_def)
  have each: "\<forall>x \<in> set (constraints b). startswith (con_name x) ''CTRL:'' \<longrightarrow>
              relink_single_constraint h x \<notin> set (stack (obj st) org) \<and>
              moved_constraint h ''CTRL:'' (relink_single_constraint h x) \<in> set (stack (obj st) c)"
    using none unfolding cs by (auto simp: moved_to_def)
  show ?thesis using run c cs none each unfolding moved_to_def by blast
qed

theorem ctrl_constraints_move_to_control_witness:
  "fresh_names sample_host \<and> plain_new_constraints sample_host \<and>
   get_bone sample_armature ''ORG-Bone'' = Some sample_org \<and>
   param_make_control default_parameters \<and>
   hd sample_constraints \<in> set (constraints sample_org) \<and>
   startswith (con_name (hd sample_constraints)) ''CTRL:'' \<and>
   (\<exists>st c. run_rig sample_host sample_armature default_parameters ''ORG-Bone'' = Inr st \<and>
      bones_ctrl st = Some c \<and>
      stack (obj st) c =
        [\<lparr>con_name = ''CTRL:Limit'', con_type = ''LIMIT_ROTATION'', con_target = None,
          con_settings = 1\<rparr>,
         \<lparr>con_name = ''CTRL:Copy'', con_type = ''COPY_ROTATION'', con_target = Some ''root'',
          con_settings = 4\<rparr>] \<and>
      hd sample_constraints \<notin> set (stack (obj st) ''ORG-Bone'') \<and>
      hd sample_constraints \<in> set (stack (obj st) c))"
proof -
  note hyps = sample_host_contract(1,3) sample_org_bone
  have mc: "param_make_control default_parameters" by (simp add: default_parameters_def)
  from ctrl_constraints_move_to_control [OF hyps mc]
  have "\<exists>st c. run_rig sample_host sample_armature default_parameters ''ORG-Bone'' = Inr st \<and>
      bones_ctrl st = Some c \<and>
      stack (obj st) c =
        [\<lparr>con_name = ''CTRL:Limit'', con_type = ''LIMIT_ROTATION'', con_target = None,
          con_settings = 1\<rparr>,
         \<lparr>con_name = ''CTRL:Copy'', con_type = ''COPY_ROTATION'', con_target = Some ''root'',
          con_settings = 4\<rparr>] \<and>
      hd sample_constraints \<notin> set (stack (obj st) ''ORG-Bone'') \<and>
      hd sample_constraints \<in> set (stack (obj st) c)"
    by (auto simp: sample_defs)
  then show ?thesis using hyps mc by (simp add: sample_org_def sample_constraints_def)
qed

text \<open>
  Claim C3. If \<open>make_deform\<close> is true, then after the rig stage every constraint of org
  whose name starts with \<^verbatim>\<open>DEF:\<close> is gone from org's stack and stands on the deform
  bone's, which is exactly those constraints, relinked, in the order they had on org; and
  this is so whatever \<open>make_control\<close> is.
\<close>

theorem def_constraints_move_to_deform:
  assumes fresh: "fresh_names h" and plain: "plain_new_constraints h"
    and org: "get_bone a org = Some b" and md: "param_make_deform p"
  shows "\<exists>st d. run_rig h a p org = Inr st \<and> bones_deform st = Some d \<and> d \<noteq> org \<and>
           stack (obj st) d =
             map (moved_constraint h ''DEF:'')
               (filter (\<lambda>x. startswith (con_name x) ''DEF:'')
                  (map (relink_single_constraint h) (constraints b))) \<and>
           (\<forall>x \<in> set (stack (obj st) org). \<not> startswith (con_name x) ''DEF:'') \<and>
           (\<forall>x \<in> set (constraints b). startswith (con_name x) ''DEF:'' \<longrightarrow>
              relink_single_constraint h x \<notin> set (stack (obj st) org) \<and>
              moved_constraint h ''DEF:'' (relink_single_constraint h x) \<in> set (stack (obj st) d))"
proof -
  from run_rig_view [OF fresh plain org, of p] md obtain st d where
    run: "run_rig h a p org = Inr st" and
    d: "bones_deform st = Some d" "d \<noteq> org" and
    ds: "stack (obj st) d = moved_to h ''DEF:'' (constraints b)" and
    ctrl: "if param_make_control p
            then \<exists>c. bones_ctrl st = Some c \<and> c \<noteq> org \<and>
                   stack (obj st) org =
                     new_constraint h ''COPY_TRANSFORMS'' c # left_on_org h p (constraints b) \<and>
                   stack (obj st) c = moved_to h ''CTRL:'' (constraints b)
            else bones_ctrl st = None \<and> stack (obj st) org = left_on_org h p (constraints b)"
    by auto
  have none: "\<forall>x \<in> set (stack (obj st) org). \<not> startswith (con_name x) ''DEF:''"
    using ctrl new_constraint_plain(2) [OF plain] md
    by (cases "param_make_control p") (auto simp: left_on_org_def)
  have each: "\<forall>x \<in> set (constraints b). startswith (con_name x) ''DEF:'' \<longrightarrow>
              relink_single_constraint h x \<notin> set (stack (obj st) org) \<and>
              moved_constraint h ''DEF:'' (relink_single_constraint h x) \<in> set (stack (obj st) d)"
    using none unfolding ds by (auto simp: moved_to_def)
  show ?thesis using run d ds none each unfolding moved_to_def by blast
qed

theorem def_constraints_move_to_deform_witness:
  "fresh_names sample_host \<and> plain_new_constraints sample_host \<and>
   get_bone sample_armature ''ORG-Bone'' = Some sample_org \<and>
   param_make_deform (default_parameters\<lparr>param_make_control := False\<rparr>) \<and>
   sample_constraints ! 2 \<in> set (constraints sample_org) \<and>
   startswith (con_name (sample_constraints ! 2)) ''DEF:'' \<and>
   (\<exists>st d. run_rig sample_host sample_armature
              (default_parameters\<lparr>param_make_control := False\<rparr>) ''ORG-Bone'' = Inr st \<and>
      bones_deform st = Some d \<and>
      stack (obj st) d =
        [\<lparr>con_name = ''DEF:Stretch'', con_type = ''STRETCH_TO'', con_target = Some ''ORG-hand'',
          con_settings = 3\<rparr>] \<and>
      (\<forall>x \<in> set (stack (obj st) ''ORG-Bone''). \<not> startswith (con_name x) ''DEF:''))"
proof -
  note hyps = sample_host_contract(1,3) sample_org_bone
  have md: "param_make_deform (default_parameters\<lparr>param_make_control := False\<rparr>)"
    by (simp add: default_parameters_def)
  from def_constraints_move_to_deform [OF hyps md]
  have "\<exists>st d. run_rig sample_host sample_armature
              (default_parameters\<lparr>param_make_control := False\<rparr>) ''ORG-Bone'' = Inr st \<and>
      bones_deform st = Some d \<and>
      stack (obj st) d =
        [\<lparr>con_name = ''DEF:Stretch'', con_type = ''STRETCH_TO'', con_target = Some ''ORG-hand'',
          con_settings = 3\<rparr>] \<and>
      (\<forall>x \<in> set (stack (obj st) ''ORG-Bone''). \<not> startswith (con_name x) ''DEF:'')"
    by (auto simp: sample_defs)
  then show ?thesis using hyps md by (simp add: sample_org_def sample_constraints_def)
qed

text \<open>
  Claim C4. A constraint of org whose name starts with neither \<^verbatim>\<open>CTRL:\<close> nor
  \<^verbatim>\<open>DEF:\<close> remains on org's stack after the rig stage, for every combination of
  \<open>make_control\<close> and \<open>make_deform\<close>, with only its target rewritten by the relink pass;
  these constraints keep their order and their number behind the added constraint.
\<close>

theorem unprefixed_constraints_stay:
  assumes fresh: "fresh_names h" and plain: "plain_new_constraints h"
    and org: "get_bone a org = Some b"
  shows "\<exists>st. run_rig h a p org = Inr st \<and>
           (\<forall>x \<in> set (constraints b).
              \<not> startswith (con_name x) ''CTRL:'' \<and> \<not> startswith (con_name x) ''DEF:'' \<longrightarrow>
              x\<lparr>con_target := retarget h x\<rparr> \<in> set (stack (obj st) org)) \<and>
           filter (\<lambda>x. \<not> startswith (con_name x) ''CTRL:'' \<and> \<not> startswith (con_name x) ''DEF:'')
             (drop (if param_make_control p then 1 else 0) (stack (obj st) org)) =
           map (\<lambda>x. x\<lparr>con_target := retarget h x\<rparr>)
             (filter (\<lambda>x. \<not> startswith (con_name x) ''CTRL:'' \<and> \<not> startswith (con_name x) ''DEF:'')
                (constraints b))"
proof -
  from run_rig_view [OF fresh plain org, of p] obtain st where
    run: "run_rig h a p org = Inr st" and
    ctrl: "if param_make_control p
            then \<exists>c. bones_ctrl st = Some c \<and> c \<noteq> org \<and>
                   stack (obj st) org =
                     new_constraint h ''COPY_TRANSFORMS'' c # left_on_org h p (constraints b) \<and>
                   stack (obj st) c = moved_to h ''CTRL:'' (constraints b)
            else bones_ctrl st = None \<and> stack (obj st) org = left_on_org h p (constraints b)"
    by blast
  have rel: "(\<lambda>x. x\<lparr>con_target := retarget h x\<rparr>) = relink_single_constraint h"
    by (simp add: fun_eq_iff relink_single_constraint_def)
  have rest: "drop (if param_make_control p then 1 else 0) (stack (obj st) org) =
              left_on_org h p (constraints b)"
    using ctrl by (cases "param_make_control p") auto
  have sub: "set (left_on_org h p (constraints b)) \<subseteq> set (stack (obj st) org)"
    using ctrl by (cases "param_make_control p") auto
  have 1: "\<forall>x \<in> set (constraints b).
              \<not> startswith (con_name x) ''CTRL:'' \<and> \<not> startswith (con_name x) ''DEF:'' \<longrightarrow>
              x\<lparr>con_target := retarget h x\<rparr> \<in> set (stack (obj st) org)"
    using sub by (auto simp: left_on_org_def relink_single_constraint_def)
  have 2: "filter (\<lambda>x. \<not> startswith (con_name x) ''CTRL:'' \<and> \<not> startswith (con_name x) ''DEF:'')
             (drop (if param_make_control p then 1 else 0) (stack (obj st) org)) =
           map (\<lambda>x. x\<lparr>con_target := retarget h x\<rparr>)
             (filter (\<lambda>x. \<not> startswith (con_name x) ''CTRL:'' \<and> \<not> startswith (con_name x) ''DEF:'')
                (constraints b))"
    unfolding rest rel by (rule filter_unprefixed_kept)
  show ?thesis using run 1 2 by blast
qed

theorem unprefixed_constraints_stay_witness:
  "fresh_names sample_host \<and> plain_new_constraints sample_host \<and>
   get_bone sample_armature ''ORG-Bone'' = Some sample_org \<and>
   sample_constraints ! 1 \<in> set (constraints sample_org) \<and>
   \<not> startswith (con_name (sample_constraints ! 1)) ''CTRL:'' \<and>
   \<not> startswith (con_name (sample_constraints ! 1)) ''DEF:'' \<and>
   (\<exists>st. run_rig sample_host sample_armature default_parameters ''ORG-Bone'' = Inr st \<and>
      \<lparr>con_name = ''Track'', con_type = ''DAMPED_TRACK'', con_target = Some ''ORG-hand'',
       con_settings = 2\<rparr> \<in> set (stack (obj st) ''ORG-Bone''))"
proof -
  note hyps = sample_host_contract(1,3) sample_org_bone
  from unprefixed_constraints_stay [OF hyps, of default_parameters]
  have "\<exists>st. run_rig sample_host sample_armature default_parameters ''ORG-Bone'' = Inr st \<and>
      \<lparr>con_name = ''Track'', con_type = ''DAMPED_TRACK'', con_target = Some ''ORG-hand'',
       con_settings = 2\<rparr> \<in> set (stack (obj st) ''ORG-Bone'')"
    by (auto simp: sample_defs)
  then show ?thesis using hyps by (simp add: sample_org_def sample_constraints_def)
qed

section \<open>The widget stage\<close>

text \<open>
  Claim C8. The widget stage requests a widget only when \<open>make_control\<close> is true: then, if
  \<open>make_widget\<close> is true, one registered widget for the control bone under the widget-type
  string, with \<^verbatim>\<open>circle\<close> in its place when that string is empty or unset, and
  otherwise the default bone widget for the control. When \<open>make_control\<close> is false no
  widget is requested at all. This holds on every armature and under every host.
\<close>

theorem widget_only_for_control:
  "\<exists>st. run_widgets h a p org = Inr st \<and>
     (if param_make_control p
      then \<exists>c. bones_ctrl st = Some c \<and>
             widget_calls (obj st) =
               widget_calls a @
               [if param_make_widget p
                then Registered_widget c
                       (case param_super_copy_widget_type p of
                          None \<Rightarrow> ''circle''
                        | Some t \<Rightarrow> if t = [] then ''circle'' else t)
                else Bone_widget c]
      else widget_calls (obj st) = widget_calls a)"
proof -
  from run_rig_frame [of h a p org] obtain s where
    run: "run_rig h a p org = Inr s" and reg: "roles_registered s" and
    fr: "params s = p" "make_control s = param_make_control p"
      "make_widget s = param_make_widget p" "widget_calls (obj s) = widget_calls a"
    by blast
  show ?thesis
  proof (cases "param_make_control p")
    case True
    with reg fr obtain c where "bones_ctrl s = Some c" by (auto simp: roles_registered_def)
    with True run fr show ?thesis
      by (simp add: run_widgets_def then_stage_def generate_widgets_def read_ctrl_def
            create_registered_widget_def create_bone_widget_def or_else_def)
  next
    case False
    with run fr show ?thesis
      by (simp add: run_widgets_def then_stage_def generate_widgets_def)
  qed
qed

theorem widget_only_for_control_witness:
  "(\<exists>st c. run_widgets sample_host sample_armature
              (default_parameters\<lparr>param_super_copy_widget_type := Some []\<rparr>) ''ORG-Bone'' = Inr st \<and>
      bones_ctrl st = Some c \<and> widget_calls (obj st) = [Registered_widget c ''circle'']) \<and>
   (\<exists>st c. run_widgets sample_host sample_armature
              (default_parameters\<lparr>param_make_widget := False\<rparr>) ''ORG-Bone'' = Inr st \<and>
      bones_ctrl st = Some c \<and> widget_calls (obj st) = [Bone_widget c]) \<and>
   (\<exists>st. run_widgets sample_host sample_armature
            (default_parameters\<lparr>param_make_control := False\<rparr>) ''ORG-Bone'' = Inr st \<and>
      widget_calls (obj st) = [])"
  using
    widget_only_for_control [of sample_host sample_armature
      "default_parameters\<lparr>param_super_copy_widget_type := Some []\<rparr>" "''ORG-Bone''"]
    widget_only_for_control [of sample_host sample_armature
      "default_parameters\<lparr>param_make_widget := False\<rparr>" "''ORG-Bone''"]
    widget_only_for_control [of sample_host sample_armature
      "default_parameters\<lparr>param_make_control := False\<rparr>" "''ORG-Bone''"]
  by (simp add: default_parameters_def sample_armature_def)

section \<open>Roles are read under their flags\<close>

text \<open>
  Claim C10. In every stage the \<^verbatim>\<open>ctrl\<close> role of the bone set is read only under
  \<open>make_control\<close> and the \<^verbatim>\<open>deform\<close> role only under \<open>make_deform\<close>, so no stage reads
  a role that generation did not register. A whole run never raises; generation registers
  every role whose flag is set; each later stage, on a state whose flagged roles are
  registered, returns and leaves them registered; and with a flag off, a stage does the same
  whatever the role of that flag holds.
\<close>

theorem roles_read_under_guards:
  "(\<exists>s. run_widgets h a p pose_bone = Inr s \<and> roles_registered s) \<and>
   (\<exists>s. generate_bones h st = Inr s \<and> roles_registered s) \<and>
   (roles_registered sr \<longrightarrow>
      (\<exists>s. parent_bones h sr = Inr s \<and> roles_registered s) \<and>
      (\<exists>s. configure_bones h sr = Inr s \<and> roles_registered s) \<and>
      (\<exists>s. rig_bones h sr = Inr s \<and> roles_registered s) \<and>
      (\<exists>s. generate_widgets h sr = Inr s \<and> roles_registered s)) \<and>
   (\<not> make_control sc \<longrightarrow>
      parent_bones h (sc\<lparr>bones_ctrl := x\<rparr>) = with_ctrl x (parent_bones h sc) \<and>
      configure_bones h (sc\<lparr>bones_ctrl := x\<rparr>) = with_ctrl x (configure_bones h sc) \<and>
      rig_bones h (sc\<lparr>bones_ctrl := x\<rparr>) = with_ctrl x (rig_bones h sc) \<and>
      generate_widgets h (sc\<lparr>bones_ctrl := x\<rparr>) = with_ctrl x (generate_widgets h sc)) \<and>
   (\<not> make_deform sd \<longrightarrow>
      parent_bones h (sd\<lparr>bones_deform := y\<rparr>) = with_deform y (parent_bones h sd) \<and>
      configure_bones h (sd\<lparr>bones_deform := y\<rparr>) = with_deform y (configure_bones h sd) \<and>
      rig_bones h (sd\<lparr>bones_deform := y\<rparr>) = with_deform y (rig_bones h sd) \<and>
      generate_widgets h (sd\<lparr>bones_deform := y\<rparr>) = with_deform y (generate_widgets h sd))"
proof -
  have pipeline: "\<exists>s. run_widgets h a p pose_bone = Inr s \<and> roles_registered s"
  proof -
    from run_rig_frame [of h a p pose_bone] obtain s where
      "run_rig h a p pose_bone = Inr s" "roles_registered s" by blast
    then show ?thesis
      using generate_widgets_registered [of s h] by (auto simp: run_widgets_def then_stage_def)
  qed
  have gen: "\<exists>s. generate_bones h st = Inr s \<and> roles_registered s"
    using generate_bones_registers [of h st] by blast
  have later: "roles_registered sr \<longrightarrow>
      (\<exists>s. parent_bones h sr = Inr s \<and> roles_registered s) \<and>
      (\<exists>s. configure_bones h sr = Inr s \<and> roles_registered s) \<and>
      (\<exists>s. rig_bones h sr = Inr s \<and> roles_registered s) \<and>
      (\<exists>s. generate_widgets h sr = Inr s \<and> roles_registered s)"
    using later_stage_frame [of sr "parent_bones h" h] later_stage_frame [of sr "configure_bones h" h]
      later_stage_frame [of sr "rig_bones h" h] generate_widgets_registered [of sr h]
    by blast
  have noctrl: "\<not> make_control sc \<longrightarrow>
      parent_bones h (sc\<lparr>bones_ctrl := x\<rparr>) = with_ctrl x (parent_bones h sc) \<and>
      configure_bones h (sc\<lparr>bones_ctrl := x\<rparr>) = with_ctrl x (configure_bones h sc) \<and>
      rig_bones h (sc\<lparr>bones_ctrl := x\<rparr>) = with_ctrl x (rig_bones h sc) \<and>
      generate_widgets h (sc\<lparr>bones_ctrl := x\<rparr>) = with_ctrl x (generate_widgets h sc)"
    by (auto simp: later_stage_defs with_ctrl_def split: prod.splits option.splits)
  have nodeform: "\<not> make_deform sd \<longrightarrow>
      parent_bones h (sd\<lparr>bones_deform := y\<rparr>) = with_deform y (parent_bones h sd) \<and>
      configure_bones h (sd\<lparr>bones_deform := y\<rparr>) = with_deform y (configure_bones h sd) \<and>
      rig_bones h (sd\<lparr>bones_deform := y\<rparr>) = with_deform y (rig_bones h sd) \<and>
      generate_widgets h (sd\<lparr>bones_deform := y\<rparr>) = with_deform y (generate_widgets h sd)"
    by (auto simp: later_stage_defs with_deform_def split: prod.splits option.splits)
  show ?thesis using pipeline gen later noctrl nodeform by blast
qed

theorem roles_read_under_guards_witness:
  "roles_registered
     ((initialize sample_host (instantiate sample_armature default_parameters ''ORG-Bone''))
        \<lparr>bones_ctrl := Some ''Bone'', bones_deform := Some ''DEF-Bone''\<rparr>) \<and>
   (\<exists>s. rig_bones sample_host
           ((initialize sample_host (instantiate sample_armature default_parameters ''ORG-Bone''))
              \<lparr>bones_ctrl := Some ''Bone'', bones_deform := Some ''DEF-Bone''\<rparr>) = Inr s) \<and>
   \<not> make_control (initialize sample_host (instantiate sample_armature
        (default_parameters\<lparr>param_make_control := False\<rparr>) ''ORG-Bone'')) \<and>
   rig_bones sample_host
     ((initialize sample_host (instantiate sample_armature
        (default_parameters\<lparr>param_make_control := False\<rparr>) ''ORG-Bone''))
        \<lparr>bones_ctrl := Some ''nowhere''\<rparr>) =
   with_ctrl (Some ''nowhere'')
     (rig_bones sample_host (initialize sample_host (instantiate sample_armature
        (default_parameters\<lparr>param_make_control := False\<rparr>) ''ORG-Bone''))) \<and>
   \<not> make_deform (initialize sample_host (instantiate sample_armature
        (default_parameters\<lparr>param_make_deform := False\<rparr>) ''ORG-Bone'')) \<and>
   parent_bones sample_host
     ((initialize sample_host (instantiate sample_armature
        (default_parameters\<lparr>param_make_deform := False\<rparr>) ''ORG-Bone''))
        \<lparr>bones_deform := Some ''nowhere''\<rparr>) =
   with_deform (Some ''nowhere'')
     (parent_bones sample_host (initialize sample_host (instantiate sample_armature
        (default_parameters\<lparr>param_make_deform := False\<rparr>) ''ORG-Bone''))) \<and>
   (\<exists>s. run_widgets sample_host sample_armature default_parameters ''ORG-Bone'' = Inr s)"
proof -
  have reg: "roles_registered
     ((initialize sample_host (instantiate sample_armature default_parameters ''ORG-Bone''))
        \<lparr>bones_ctrl := Some ''Bone'', bones_deform := Some ''DEF-Bone''\<rparr>)"
    by (simp add: roles_registered_def)
  have nc: "\<not> make_control (initialize sample_host (instantiate sample_armature
        (default_parameters\<lparr>param_make_control := False\<rparr>) ''ORG-Bone''))"
    by (simp add: initialize_def instantiate_def)
  have nd: "\<not> make_deform (initialize sample_host (instantiate sample_armature
        (default_parameters\<lparr>param_make_deform := False\<rparr>) ''ORG-Bone''))"
    by (simp add: initialize_def instantiate_def)
  from roles_read_under_guards
    [of sample_host sample_armature default_parameters "''ORG-Bone''"
      "instantiate sample_armature default_parameters ''ORG-Bone''"
      "(initialize sample_host (instantiate sample_armature default_parameters ''ORG-Bone''))
         \<lparr>bones_ctrl := Some ''Bone'', bones_deform := Some ''DEF-Bone''\<rparr>"
      "initialize sample_host (instantiate sample_armature
         (default_parameters\<lparr>param_make_control := False\<rparr>) ''ORG-Bone'')"
      "Some ''nowhere''"
      "initialize sample_host (instantiate sample_armature
         (default_parameters\<lparr>param_make_deform := False\<rparr>) ''ORG-Bone'')"
      "Some ''nowhere''"]
  show ?thesis using reg nc nd by blast
qed

end
